theory Spec2Isabelle
  imports Main "HOL-Library.AList"
begin

section \<open>Strings of the host language\<close>

text \<open>
  A JavaScript string is a sequence of UTF-16 code units; \<open>trim\<close> and the regular
  expressions of the walker (which carry no flag) work on code units. A code unit
  is modelled by its number.
\<close>

type_synonym code_unit = nat
type_synonym jsstring = "code_unit list"

definition ascii :: "string \<Rightarrow> jsstring" where
  "ascii s = map of_char s"

text \<open>
  The class \<open>\s\<close> of a regular expression, which is also the set that \<open>trim\<close> removes:
  the WhiteSpace and LineTerminator code points of ECMAScript.
\<close>

definition isSpace :: "code_unit \<Rightarrow> bool" where
  "isSpace c \<longleftrightarrow>
     c = 0x09 \<or> c = 0x0A \<or> c = 0x0B \<or> c = 0x0C \<or> c = 0x0D \<or> c = 0x20 \<or> c = 0xA0 \<or>
     c = 0x1680 \<or> (0x2000 \<le> c \<and> c \<le> 0x200A) \<or> c = 0x2028 \<or> c = 0x2029 \<or>
     c = 0x202F \<or> c = 0x205F \<or> c = 0x3000 \<or> c = 0xFEFF"

text \<open>The class \<open>\w\<close>: \<open>[A-Za-z0-9_]\<close>.\<close>

definition isWord :: "code_unit \<Rightarrow> bool" where
  "isWord c \<longleftrightarrow>
     (0x41 \<le> c \<and> c \<le> 0x5A) \<or> (0x61 \<le> c \<and> c \<le> 0x7A) \<or> (0x30 \<le> c \<and> c \<le> 0x39) \<or> c = 0x5F"

text \<open>The range from U+0600 to U+06FF of the target script.\<close>

definition isArabic :: "code_unit \<Rightarrow> bool" where
  "isArabic c \<longleftrightarrow> 0x0600 \<le> c \<and> c \<le> 0x06FF"

text \<open>\<open>String.prototype.trim\<close>.\<close>

definition trim :: "jsstring \<Rightarrow> jsstring" where
  "trim t = rev (dropWhile isSpace (rev (dropWhile isSpace t)))"

text \<open>\<open>/^[^\w\s\u0600-\u06FF]*$/.test(t)\<close>: every code unit lies outside the three classes.\<close>

definition symbolOnly :: "jsstring \<Rightarrow> bool" where
  "symbolOnly t = list_all (\<lambda>c. \<not> isWord c \<and> \<not> isSpace c \<and> \<not> isArabic c) t"

text \<open>\<open>t.match(/^\s*/)?.[0] || ''\<close> and \<open>t.match(/\s*$/)?.[0] || ''\<close>.\<close>

definition leadingSpace :: "jsstring \<Rightarrow> jsstring" where
  "leadingSpace t = takeWhile isSpace t"

definition trailingSpace :: "jsstring \<Rightarrow> jsstring" where
  "trailingSpace t = rev (takeWhile isSpace (rev t))"

section \<open>The document tree\<close>

text \<open>
  A node of the document: an element with its tag name, attributes and ordered child
  nodes, a text node with its payload, or a node of another kind (a comment), which the
  walker neither reads nor descends into.
\<close>

datatype node =
    Element jsstring "(jsstring \<times> jsstring) list" "node list"
  | Text jsstring
  | Comment jsstring

section \<open>Errors, the console, the environment\<close>

datatype js_error = Error jsstring | TypeError

text \<open>The two \<open>console.error\<close> calls of the provider.\<close>

datatype console_entry =
    FailedToTranslateText jsstring js_error
  | TranslationFailed js_error

text \<open>
  The collaborators of the provider: the two lookup functions imported from
  \<open>@/utils/translations\<close>, which may throw, and the identifiers
  \<open>`text-${Date.now()}-${Math.random()}`\<close>, of which \<open>nodeIds k\<close> is the one drawn at
  the \<open>k\<close>-th draw.
\<close>

record env =
  translateText :: "jsstring \<Rightarrow> js_error + jsstring"
  reverseTranslateText :: "jsstring \<Rightarrow> js_error + jsstring"
  nodeIds :: "nat \<Rightarrow> jsstring"

text \<open>
  What the provider reads and writes: its three state variables, the attributes of
  \<open>document.documentElement\<close>, the element \<open>document.querySelector('main') || document.body\<close>
  (\<open>None\<close> when the document has neither), the console, and the number of identifiers
  drawn so far. A \<open>Map\<close> is an association list in insertion order.
\<close>

record world =
  isTranslated :: bool
  isTranslating :: bool
  originalTexts :: "(jsstring \<times> jsstring) list"
  documentElement :: "(jsstring \<times> jsstring) list"
  mainContent :: "node option"
  console :: "console_entry list"
  drawn :: nat

section \<open>The walker\<close>

definition excludedTag :: "jsstring \<Rightarrow> bool" where
  "excludedTag tagName \<longleftrightarrow>
     tagName = ascii ''SCRIPT'' \<or> tagName = ascii ''STYLE'' \<or> tagName = ascii ''NOSCRIPT''"

text \<open>The lookup in the direction of the walk.\<close>

definition lookupText :: "env \<Rightarrow> bool \<Rightarrow> jsstring \<Rightarrow> js_error + jsstring" where
  "lookupText env isReverse currentText =
     (if isReverse then reverseTranslateText env currentText else translateText env currentText)"

text \<open>
  The body of the first loop for one text node with payload \<open>textContent\<close>: the new
  payload and the world after it.
\<close>

definition translateTextNode :: "env \<Rightarrow> bool \<Rightarrow> jsstring \<Rightarrow> world \<Rightarrow> jsstring \<times> world" where
  "translateTextNode env isReverse textContent w =
     (if trim textContent = [] then (textContent, w)
      else
        let currentText = trim textContent in
        if length currentText < 1 \<or> symbolOnly currentText then (textContent, w)
        else
          case lookupText env isReverse currentText of
            Inl error \<Rightarrow>
              (textContent, w\<lparr>console := console w @ [FailedToTranslateText currentText error]\<rparr>)
          | Inr translatedText \<Rightarrow>
              if translatedText \<noteq> currentText then
                let nodeId = nodeIds env (drawn w);
                    w1 = w\<lparr>drawn := Suc (drawn w)\<rparr>;
                    w2 = (if \<not> isReverse
                          then w1\<lparr>originalTexts := AList.update nodeId currentText (originalTexts w1)\<rparr>
                          else w1)
                in (leadingSpace textContent @ translatedText @ trailingSpace textContent, w2)
              else (textContent, w))"

text \<open>The first loop: every text node among the child nodes, in document order.\<close>

fun processTextNodes :: "env \<Rightarrow> bool \<Rightarrow> node list \<Rightarrow> world \<Rightarrow> node list \<times> world" where
  "processTextNodes env isReverse [] w = ([], w)"
| "processTextNodes env isReverse (Text t # ns) w =
     (let (t', w1) = translateTextNode env isReverse t w;
          (ns', w2) = processTextNodes env isReverse ns w1
      in (Text t' # ns', w2))"
| "processTextNodes env isReverse (n # ns) w =
     (let (ns', w1) = processTextNodes env isReverse ns w in (n # ns', w1))"

text \<open>The number of nodes of a tree, for the termination of the walk.\<close>

fun nodeCount :: "node \<Rightarrow> nat" where
  "nodeCount (Element tagName attrs childNodes) = Suc (sum_list (map nodeCount childNodes))"
| "nodeCount (Text t) = 1"
| "nodeCount (Comment t) = 1"

lemma processTextNodes_nodeCount:
  "sum_list (map nodeCount (fst (processTextNodes env r ns w))) = sum_list (map nodeCount ns)"
  by (induction env r ns w rule: processTextNodes.induct) (auto split: prod.splits)

text \<open>
  \<open>translateElementsRecursively\<close>, and its second loop \<open>processChildren\<close> over the child
  elements. The parameter has the type \<open>Element\<close> in the source; the equations for a
  text node and for a comment are for the nodes that this type excludes.
\<close>

function translateElementsRecursively :: "env \<Rightarrow> bool \<Rightarrow> node \<Rightarrow> world \<Rightarrow> node \<times> world"
  and processChildren :: "env \<Rightarrow> bool \<Rightarrow> node list \<Rightarrow> world \<Rightarrow> node list \<times> world" where
  "translateElementsRecursively env isReverse (Element tagName attrs childNodes) w =
     (if excludedTag tagName then (Element tagName attrs childNodes, w)
      else
        let (childNodes1, w1) = processTextNodes env isReverse childNodes w;
            (childNodes2, w2) = processChildren env isReverse childNodes1 w1
        in (Element tagName attrs childNodes2, w2))"
| "translateElementsRecursively env isReverse (Text t) w = (Text t, w)"
| "translateElementsRecursively env isReverse (Comment t) w = (Comment t, w)"
| "processChildren env isReverse [] w = ([], w)"
| "processChildren env isReverse (Element tagName attrs childNodes # ns) w =
     (let (n', w1) = translateElementsRecursively env isReverse (Element tagName attrs childNodes) w;
          (ns', w2) = processChildren env isReverse ns w1
      in (n' # ns', w2))"
| "processChildren env isReverse (Text t # ns) w =
     (let (ns', w1) = processChildren env isReverse ns w in (Text t # ns', w1))"
| "processChildren env isReverse (Comment t # ns) w =
     (let (ns', w1) = processChildren env isReverse ns w in (Comment t # ns', w1))"
  by pat_completeness auto

termination
proof (relation "measure (\<lambda>x. case x of
          Inl (env, r, n, w) \<Rightarrow> 2 * nodeCount n
        | Inr (env, r, ns, w) \<Rightarrow> 2 * sum_list (map nodeCount ns) + 1)", goal_cases)
  case 1
  show ?case by simp
next
  case (2 env isReverse tagName attrs childNodes w x xa y)
  have "sum_list (map nodeCount (fst (processTextNodes env isReverse childNodes w)))
          = sum_list (map nodeCount childNodes)"
    by (rule processTextNodes_nodeCount)
  with 2 show ?case by (simp add: fst_def split: prod.splits)
qed auto

section \<open>The state holder\<close>

text \<open>
  The \<open>try\<close> block of \<open>translate\<close>: the error it throws, if any, and the world it leaves.
  \<open>element.tagName\<close> on a missing content root throws a \<open>TypeError\<close> before anything is
  written; the walk itself catches what the lookups throw.
\<close>

definition translateTry :: "env \<Rightarrow> world \<Rightarrow> js_error option \<times> world" where
  "translateTry env w =
     (if isTranslated w then
        (case mainContent w of
           None \<Rightarrow> (Some TypeError, w)
         | Some root \<Rightarrow>
             let (root', w1) = translateElementsRecursively env True root w;
                 w2 = w1\<lparr>mainContent := Some root'\<rparr>;
                 w3 = w2\<lparr>documentElement := AList.update (ascii ''dir'') (ascii ''ltr'') (documentElement w2)\<rparr>;
                 w4 = w3\<lparr>documentElement := AList.update (ascii ''lang'') (ascii ''en'') (documentElement w3)\<rparr>;
                 w5 = w4\<lparr>isTranslated := False\<rparr>
             in (None, w5\<lparr>originalTexts := []\<rparr>))
      else
        (case mainContent w of
           None \<Rightarrow> (Some TypeError, w)
         | Some root \<Rightarrow>
             let (root', w1) = translateElementsRecursively env False root w;
                 w2 = w1\<lparr>mainContent := Some root'\<rparr>;
                 w3 = w2\<lparr>documentElement := AList.update (ascii ''dir'') (ascii ''rtl'') (documentElement w2)\<rparr>;
                 w4 = w3\<lparr>documentElement := AList.update (ascii ''lang'') (ascii ''ar'') (documentElement w3)\<rparr>
             in (None, w4\<lparr>isTranslated := True\<rparr>)))"

text \<open>\<open>translate\<close>: the guard, the \<open>try\<close> block, its \<open>catch\<close> and its \<open>finally\<close>.\<close>

definition translate :: "env \<Rightarrow> world \<Rightarrow> world" where
  "translate env w =
     (if isTranslating w then w
      else
        let w1 = w\<lparr>isTranslating := True\<rparr>;
            w2 = (case translateTry env w1 of
                    (None, w') \<Rightarrow> w'
                  | (Some error, w') \<Rightarrow> w'\<lparr>console := console w' @ [TranslationFailed error]\<rparr>)
        in w2\<lparr>isTranslating := False\<rparr>)"

definition resetTranslation :: "env \<Rightarrow> world \<Rightarrow> world" where
  "resetTranslation env w = (if \<not> isTranslated w then w else translate env w)"

section \<open>A call and the render that made its closure\<close>

text \<open>
  \<open>translate\<close> is a closure of one render of the provider: \<open>isTranslated\<close> and
  \<open>isTranslating\<close> in its body are the constants of that render, whatever the setters
  have been given since. \<open>translate\<close> above is the call, run to its end, through the
  closure of a render that saw the state of the world as it is.
\<close>

record snapshot =
  seen_isTranslated :: bool
  seen_isTranslating :: bool

definition renderOf :: "world \<Rightarrow> snapshot" where
  "renderOf w = \<lparr>seen_isTranslated = isTranslated w, seen_isTranslating = isTranslating w\<rparr>"

text \<open>
  The part of \<open>translateElementsRecursively\<close> that runs before its first \<open>await\<close>: the
  exclusion test, the first loop, and the same part of the call on the first child
  element, if there is one; the \<open>await\<close> of that call suspends the function.
\<close>

function translateElementsPrefix :: "env \<Rightarrow> bool \<Rightarrow> node \<Rightarrow> world \<Rightarrow> node \<times> world"
  and firstChildPrefix :: "env \<Rightarrow> bool \<Rightarrow> node list \<Rightarrow> world \<Rightarrow> node list \<times> world" where
  "translateElementsPrefix env isReverse (Element tagName attrs childNodes) w =
     (if excludedTag tagName then (Element tagName attrs childNodes, w)
      else
        let (childNodes1, w1) = processTextNodes env isReverse childNodes w;
            (childNodes2, w2) = firstChildPrefix env isReverse childNodes1 w1
        in (Element tagName attrs childNodes2, w2))"
| "translateElementsPrefix env isReverse (Text t) w = (Text t, w)"
| "translateElementsPrefix env isReverse (Comment t) w = (Comment t, w)"
| "firstChildPrefix env isReverse [] w = ([], w)"
| "firstChildPrefix env isReverse (Element tagName attrs childNodes # ns) w =
     (let (n', w1) = translateElementsPrefix env isReverse (Element tagName attrs childNodes) w
      in (n' # ns, w1))"
| "firstChildPrefix env isReverse (Text t # ns) w =
     (let (ns', w1) = firstChildPrefix env isReverse ns w in (Text t # ns', w1))"
| "firstChildPrefix env isReverse (Comment t # ns) w =
     (let (ns', w1) = firstChildPrefix env isReverse ns w in (Comment t # ns', w1))"
  by pat_completeness auto

termination
proof (relation "measure (\<lambda>x. case x of
          Inl (env, r, n, w) \<Rightarrow> 2 * nodeCount n
        | Inr (env, r, ns, w) \<Rightarrow> 2 * sum_list (map nodeCount ns) + 1)", goal_cases)
  case 1
  show ?case by simp
next
  case (2 env isReverse tagName attrs childNodes w x xa y)
  have "sum_list (map nodeCount (fst (processTextNodes env isReverse childNodes w)))
          = sum_list (map nodeCount childNodes)"
    by (rule processTextNodes_nodeCount)
  with 2 show ?case by (simp add: fst_def split: prod.splits)
qed auto

text \<open>
  The part of a call of \<open>translate\<close> that runs before the call returns its promise,
  through the closure of a render with the given constants: the guard, the setter of
  the in-flight flag, and the walk up to its first \<open>await\<close>. The attributes, the mode
  and the \<open>finally\<close> block come after the \<open>await\<close> of the walk, in a later turn.
\<close>

definition translatePrefix :: "env \<Rightarrow> snapshot \<Rightarrow> world \<Rightarrow> world" where
  "translatePrefix env seen w =
     (if seen_isTranslating seen then w
      else
        let w1 = w\<lparr>isTranslating := True\<rparr> in
        case mainContent w1 of
          None \<Rightarrow> w1
        | Some root \<Rightarrow>
            let (root', w2) = translateElementsPrefix env (seen_isTranslated seen) root w1
            in w2\<lparr>mainContent := Some root'\<rparr>)"

section \<open>The context and its accessor\<close>

text \<open>
  The value of the context; the members carry the prefix \<open>ctx\<close> because the state
  variables have their names already.
\<close>

record TranslationContextType =
  ctx_isTranslated :: bool
  ctx_isTranslating :: bool
  ctx_translate :: "world \<Rightarrow> world"
  ctx_resetTranslation :: "world \<Rightarrow> world"

text \<open>The value that \<open>TranslationProvider\<close> gives to its descendants.\<close>

definition providerValue :: "env \<Rightarrow> world \<Rightarrow> TranslationContextType" where
  "providerValue env w =
     \<lparr>ctx_isTranslated = isTranslated w, ctx_isTranslating = isTranslating w,
      ctx_translate = translate env, ctx_resetTranslation = resetTranslation env\<rparr>"

text \<open>
  \<open>useTranslation\<close>, given what \<open>useContext(TranslationContext)\<close> returns: \<open>None\<close> is the
  default \<open>undefined\<close> of the context, found where no provider is above.
\<close>

definition useTranslation :: "TranslationContextType option \<Rightarrow> js_error + TranslationContextType" where
  "useTranslation context =
     (case context of
        None \<Rightarrow> Inl (Error (ascii ''useTranslation must be used within a TranslationProvider''))
      | Some c \<Rightarrow> Inr c)"

section \<open>Positions in a tree\<close>

text \<open>The node at a position, a list of child indices from the root.\<close>

fun nodeAt :: "node \<Rightarrow> nat list \<Rightarrow> node option" where
  "nodeAt n [] = Some n"
| "nodeAt (Element tagName attrs childNodes) (i # p) =
     (if i < length childNodes then nodeAt (childNodes ! i) p else None)"
| "nodeAt (Text t) (i # p) = None"
| "nodeAt (Comment t) (i # p) = None"

text \<open>The tag names of the elements strictly above a position, from the root down.\<close>

fun ancestorTags :: "node \<Rightarrow> nat list \<Rightarrow> jsstring list" where
  "ancestorTags n [] = []"
| "ancestorTags (Element tagName attrs childNodes) (i # p) =
     tagName # (if i < length childNodes then ancestorTags (childNodes ! i) p else [])"
| "ancestorTags (Text t) (i # p) = []"
| "ancestorTags (Comment t) (i # p) = []"

text \<open>The node at a position lies inside a subtree whose root element has an excluded tag.\<close>

definition insideExcluded :: "node \<Rightarrow> nat list \<Rightarrow> bool" where
  "insideExcluded root p = list_ex excludedTag (ancestorTags root p)"

section \<open>The walk without its bookkeeping\<close>

text \<open>
  The payload that the first loop leaves in a text node, and the tree that the walk
  leaves, as functions of the payload and of the tree alone; both are shown below to be
  the first components of the functions above.
\<close>

definition newPayload :: "env \<Rightarrow> bool \<Rightarrow> jsstring \<Rightarrow> jsstring" where
  "newPayload env isReverse textContent =
     (if trim textContent = [] \<or> symbolOnly (trim textContent) then textContent
      else case lookupText env isReverse (trim textContent) of
             Inl error \<Rightarrow> textContent
           | Inr translatedText \<Rightarrow>
               if translatedText \<noteq> trim textContent
               then leadingSpace textContent @ translatedText @ trailingSpace textContent
               else textContent)"

fun textStep :: "env \<Rightarrow> bool \<Rightarrow> node \<Rightarrow> node" where
  "textStep env isReverse (Text t) = Text (newPayload env isReverse t)"
| "textStep env isReverse n = n"

fun walkTree :: "env \<Rightarrow> bool \<Rightarrow> node \<Rightarrow> node" where
  "walkTree env isReverse (Element tagName attrs childNodes) =
     (if excludedTag tagName then Element tagName attrs childNodes
      else Element tagName attrs
             (map (\<lambda>n. textStep env isReverse (walkTree env isReverse n)) childNodes))"
| "walkTree env isReverse (Text t) = Text t"
| "walkTree env isReverse (Comment t) = Comment t"

lemma translateTextNode_fst:
  "fst (translateTextNode env r t w) = newPayload env r t"
  by (simp add: translateTextNode_def newPayload_def Let_def split: sum.splits)

lemma processTextNodes_fst:
  "fst (processTextNodes env r ns w) = map (textStep env r) ns"
proof (induction env r ns w rule: processTextNodes.induct)
  case (2 env isReverse t ns w)
  obtain t' w1 where tw: "translateTextNode env isReverse t w = (t', w1)"
    by (cases "translateTextNode env isReverse t w")
  obtain ns' w2 where nw: "processTextNodes env isReverse ns w1 = (ns', w2)"
    by (cases "processTextNodes env isReverse ns w1")
  have "t' = newPayload env isReverse t"
    using translateTextNode_fst [of env isReverse t w] tw by simp
  moreover have "ns' = map (textStep env isReverse) ns"
    using 2 tw nw by simp
  ultimately show ?case
    using tw nw by simp
qed (simp_all add: case_prod_unfold)

lemma walkTree_textStep:
  "walkTree env r (textStep env r n) = textStep env r (walkTree env r n)"
  by (cases n) simp_all

lemma walk_fst:
  "fst (translateElementsRecursively env r n w) = walkTree env r n"
  "fst (processChildren env r ns w) = map (walkTree env r) ns"
proof (induction env r n w and env r ns w rule: translateElementsRecursively_processChildren.induct)
  case (1 env isReverse tagName attrs childNodes w)
  show ?case
  proof (cases "excludedTag tagName")
    case True
    then show ?thesis by simp
  next
    case False
    obtain ks1 w1 where p: "processTextNodes env isReverse childNodes w = (ks1, w1)"
      by (cases "processTextNodes env isReverse childNodes w")
    have ks1: "ks1 = map (textStep env isReverse) childNodes"
      using processTextNodes_fst [of env isReverse childNodes w] p by simp
    obtain ks2 w2 where q: "processChildren env isReverse ks1 w1 = (ks2, w2)"
      by (cases "processChildren env isReverse ks1 w1")
    have "ks2 = map (walkTree env isReverse) ks1"
      using 1 False p q by simp
    then show ?thesis
      using False p q ks1 by (simp add: walkTree_textStep)
  qed
next
  case (5 env isReverse tagName attrs childNodes ns w)
  obtain n' w1 where p: "translateElementsRecursively env isReverse (Element tagName attrs childNodes) w = (n', w1)"
    by (cases "translateElementsRecursively env isReverse (Element tagName attrs childNodes) w")
  obtain ns' w2 where q: "processChildren env isReverse ns w1 = (ns', w2)"
    by (cases "processChildren env isReverse ns w1")
  have "n' = walkTree env isReverse (Element tagName attrs childNodes)"
    using 5(1) p by simp
  moreover have "ns' = map (walkTree env isReverse) ns"
    using 5(2) p q by simp
  ultimately show ?case
    using p q by simp
qed (simp_all add: case_prod_unfold)

section \<open>Trimming and padding\<close>


lemma trim_parts:
  assumes "trim t \<noteq> []"
  shows "leadingSpace t @ trim t @ trailingSpace t = t"
proof -
  let ?d = "dropWhile isSpace t"
  have d: "?d \<noteq> []"
  proof
    assume e: "?d = []"
    have "trim t = []" by (simp only: trim_def e dropWhile.simps rev.simps)
    with assms show False by simp
  qed
  have "rev (takeWhile isSpace (rev ?d)) = rev (takeWhile isSpace (rev t))"
  proof -
    have "rev t = rev ?d @ rev (takeWhile isSpace t)"
      by (metis rev_append takeWhile_dropWhile_id)
    moreover have "\<exists>x\<in>set (rev ?d). \<not> isSpace x"
      using d by (metis hd_dropWhile hd_in_set set_rev)
    ultimately show ?thesis
      by (metis takeWhile_append1)
  qed
  then have "trim t @ trailingSpace t = ?d"
    unfolding trim_def trailingSpace_def
    by (metis rev_append rev_rev_ident takeWhile_dropWhile_id)
  then show ?thesis
    by (simp add: leadingSpace_def)
qed


lemma trimmed_ends:
  assumes "c \<noteq> []" and "trim c = c"
  shows "\<not> isSpace (hd c)" and "\<not> isSpace (last c)"
proof -
  have len: "length (trim c) \<le> length (dropWhile isSpace c)"
    unfolding trim_def
    using length_dropWhile_le [of isSpace "rev (dropWhile isSpace c)"] by simp
  show h: "\<not> isSpace (hd c)"
  proof
    assume "isSpace (hd c)"
    then have "length (dropWhile isSpace c) < length c"
      using assms(1) by (cases c) (simp_all add: length_dropWhile_le le_imp_less_Suc)
    with len assms(2) show False by simp
  qed
  then have "dropWhile isSpace c = c"
    using assms(1) by (cases c) simp_all
  then have t: "trim c = rev (dropWhile isSpace (rev c))"
    by (simp add: trim_def)
  show "\<not> isSpace (last c)"
  proof
    assume "isSpace (last c)"
    then have "isSpace (hd (rev c))"
      using assms(1) by (simp add: hd_rev)
    then have "length (dropWhile isSpace (rev c)) < length (rev c)"
      using assms(1) by (cases "rev c") (simp_all add: length_dropWhile_le le_imp_less_Suc)
    with t assms(2) show False
      by (metis length_rev less_irrefl)
  qed
qed

lemma padded_fragment:
  assumes "c \<noteq> []" and "trim c = c"
    and l: "\<forall>x\<in>set l. isSpace x" and r: "\<forall>x\<in>set r. isSpace x"
  shows "trim (l @ c @ r) = c"
    and "leadingSpace (l @ c @ r) = l"
    and "trailingSpace (l @ c @ r) = r"
proof -
  have h: "\<not> isSpace (hd c)" and e: "\<not> isSpace (last c)"
    using trimmed_ends [OF assms(1,2)] by simp_all
  have d1: "dropWhile isSpace (c @ r) = c @ r"
    using assms(1) h by (cases c) simp_all
  have d2: "dropWhile isSpace (rev c @ rev l) = rev c @ rev l"
    using assms(1) e by (cases "rev c") (simp_all add: last_rev [symmetric] hd_rev)
  have t1: "takeWhile isSpace (c @ r) = []"
    using assms(1) h by (cases c) simp_all
  have t2: "takeWhile isSpace (rev c @ rev l) = []"
    using assms(1) e by (cases "rev c") (simp_all add: hd_rev)
  have "dropWhile isSpace (l @ c @ r) = c @ r"
    using l d1 by simp
  moreover have "dropWhile isSpace (rev r @ rev c) = rev c"
  proof -
    have "dropWhile isSpace (rev r @ rev c) = dropWhile isSpace (rev c)"
      using r by (intro dropWhile_append2) simp
    moreover have "dropWhile isSpace (rev c) = rev c"
      using assms(1) e by (cases "rev c") (simp_all add: hd_rev)
    ultimately show ?thesis by simp
  qed
  ultimately show "trim (l @ c @ r) = c"
    by (simp add: trim_def)
  show "leadingSpace (l @ c @ r) = l"
    using l t1 by (simp add: leadingSpace_def)
  have "takeWhile isSpace (rev r @ rev c @ rev l) = rev r @ takeWhile isSpace (rev c @ rev l)"
    using r by (intro takeWhile_append2) simp
  then show "trailingSpace (l @ c @ r) = r"
    using t2 by (simp add: trailingSpace_def)
qed

lemma leadingSpace_spaces: "\<forall>x\<in>set (leadingSpace t). isSpace x"
  by (auto simp: leadingSpace_def dest: set_takeWhileD)

lemma trailingSpace_spaces: "\<forall>x\<in>set (trailingSpace t). isSpace x"
  by (auto simp: trailingSpace_def dest: set_takeWhileD)

section \<open>Positions after a walk\<close>

lemma insideExcluded_Cons:
  "insideExcluded (Element tagName attrs childNodes) (i # p) \<longleftrightarrow>
     excludedTag tagName \<or> (i < length childNodes \<and> insideExcluded (childNodes ! i) p)"
  by (simp add: insideExcluded_def)

lemma insideExcluded_Nil: "\<not> insideExcluded n []"
  by (simp add: insideExcluded_def)

lemma nodeAt_walkTree_text:
  "nodeAt n p = Some (Text t) \<Longrightarrow>
   nodeAt (walkTree env r n) p =
     Some (Text (if p \<noteq> [] \<and> \<not> insideExcluded n p then newPayload env r t else t))"
proof (induction p arbitrary: n)
  case Nil
  then show ?case by simp
next
  case (Cons i p)
  show ?case
  proof (cases n)
    case (Element tagName attrs childNodes)
    with Cons.prems have i: "i < length childNodes"
      and k: "nodeAt (childNodes ! i) p = Some (Text t)"
      by (simp_all split: if_splits)
    show ?thesis
    proof (cases "excludedTag tagName")
      case True
      with Element Cons.prems show ?thesis by (simp add: insideExcluded_Cons)
    next
      case False
      show ?thesis
      proof (cases p)
        case Nil
        with k have "childNodes ! i = Text t" by simp
        with Element False i Nil show ?thesis
          by (simp add: insideExcluded_Cons insideExcluded_Nil)
      next
        case (Cons j q)
        with k obtain tg at ks where e: "childNodes ! i = Element tg at ks"
          by (cases "childNodes ! i") simp_all
        have "textStep env r (walkTree env r (childNodes ! i)) = walkTree env r (childNodes ! i)"
          using e by simp
        with Element False i Cons Cons.IH [OF k] show ?thesis
          by (simp add: insideExcluded_Cons)
      qed
    qed
  next
    case (Text s)
    with Cons.prems show ?thesis by simp
  next
    case (Comment s)
    with Cons.prems show ?thesis by simp
  qed
qed

lemma ancestorTags_walkTree:
  "ancestorTags (walkTree env r n) p = ancestorTags n p"
proof (induction p arbitrary: n)
  case Nil
  then show ?case by simp
next
  case (Cons i p)
  show ?case
  proof (cases n)
    case (Element tagName attrs childNodes)
    show ?thesis
    proof (cases "i < length childNodes \<and> \<not> excludedTag tagName")
      case True
      have "ancestorTags (textStep env r (walkTree env r (childNodes ! i))) p
              = ancestorTags (walkTree env r (childNodes ! i)) p"
        by (cases "childNodes ! i"; cases p) simp_all
      with True Element Cons.IH show ?thesis by simp
    next
      case False
      with Element show ?thesis by auto
    qed
  qed simp_all
qed


lemma insideExcluded_walkTree:
  "insideExcluded (walkTree env r n) p = insideExcluded n p"
  by (simp add: insideExcluded_def ancestorTags_walkTree)

section \<open>Lookup tables\<close>

text \<open>A fragment that the walker looks up: not empty, trimmed, not matched by the exclusion pattern.\<close>

definition translatable :: "jsstring \<Rightarrow> bool" where
  "translatable t \<longleftrightarrow> t \<noteq> [] \<and> trim t = t \<and> \<not> symbolOnly t"

text \<open>The reverse lookup undoes the forward lookup on every string.\<close>

definition inverseEverywhere :: "env \<Rightarrow> bool" where
  "inverseEverywhere env \<longleftrightarrow>
     (\<forall>t. \<exists>c. translateText env t = Inr c \<and> reverseTranslateText env c = Inr t)"

text \<open>The reverse lookup undoes the forward lookup on every looked-up fragment that has an entry.\<close>

definition inverseOnFragments :: "env \<Rightarrow> bool" where
  "inverseOnFragments env \<longleftrightarrow>
     (\<forall>t c. translatable t \<and> translateText env t = Inr c \<and> c \<noteq> t
        \<longrightarrow> reverseTranslateText env c = Inr t)"

text \<open>What the forward lookup returns for a looked-up fragment is such a fragment again.\<close>

definition candidatesTranslatable :: "env \<Rightarrow> bool" where
  "candidatesTranslatable env \<longleftrightarrow>
     (\<forall>t c. translatable t \<and> translateText env t = Inr c \<longrightarrow> translatable c)"

section \<open>Sample tables, documents and worlds\<close>

definition helloWorld :: jsstring where
  "helloWorld = ascii ''Hello world''"

text \<open>The thirteen code units of the Arabic for it.\<close>

definition marhaban :: jsstring where
  "marhaban = [0x645, 0x631, 0x62D, 0x628, 0x627, 0x20, 0x628, 0x627, 0x644, 0x639, 0x627, 0x644, 0x645]"

text \<open>
  A table with an entry for a phrase and one for \<open>42\<close> (the Arabic-Indic digits), whose
  forward lookup throws on \<open>Boom\<close>.
\<close>

definition sampleEnv :: env where
  "sampleEnv =
     \<lparr>translateText = (\<lambda>t. if t = helloWorld then Inr marhaban
                           else if t = ascii ''42'' then Inr [0x664, 0x662]
                           else if t = ascii ''Boom'' then Inl (Error (ascii ''no entry''))
                           else Inr t),
      reverseTranslateText = (\<lambda>t. if t = marhaban then Inr helloWorld
                           else if t = [0x664, 0x662] then Inr (ascii ''42'')
                           else Inr t),
      nodeIds = (\<lambda>k. ascii ''text-'' @ replicate (Suc k) 0x31)\<rparr>"

text \<open>
  A table that exchanges three pairs of strings, the same in both directions: its
  entries lead to a symbol-only string, to the empty string and to a padded string.
\<close>

definition swap :: "jsstring \<Rightarrow> jsstring" where
  "swap t =
     (if t = ascii ''Hi'' then ascii ''!!'' else if t = ascii ''!!'' then ascii ''Hi''
      else if t = ascii ''Yes'' then [] else if t = [] then ascii ''Yes''
      else if t = ascii ''No'' then ascii '' X'' else if t = ascii '' X'' then ascii ''No''
      else t)"

definition swapEnv :: env where
  "swapEnv =
     \<lparr>translateText = (\<lambda>t. Inr (swap t)), reverseTranslateText = (\<lambda>t. Inr (swap t)),
      nodeIds = (\<lambda>k. ascii ''text-'' @ replicate (Suc k) 0x31)\<rparr>"

definition sampleWorld :: "(jsstring \<times> jsstring) list \<Rightarrow> node option \<Rightarrow> world" where
  "sampleWorld attrs root =
     \<lparr>isTranslated = False, isTranslating = False, originalTexts = [],
      documentElement = attrs, mainContent = root, console = [], drawn = 0\<rparr>"

definition helloPage :: node where
  "helloPage = Element (ascii ''MAIN'') []
     [Element (ascii ''P'') [] [Text (ascii ''  '' @ helloWorld @ ascii ''  '')]]"

definition digitsPage :: node where
  "digitsPage = Element (ascii ''P'') [] [Text (ascii ''42'')]"

definition swapPage :: node where
  "swapPage = Element (ascii ''MAIN'') []
     [Element (ascii ''P'') [] [Text (ascii ''Hi'')],
      Element (ascii ''P'') [] [Text (ascii ''Yes'')],
      Element (ascii ''P'') [] [Text (ascii ''No'')]]"

definition boomPage :: node where
  "boomPage = Element (ascii ''MAIN'') []
     [Text (ascii ''Boom''), Element (ascii ''P'') [] [Text helloWorld], Text helloWorld]"

text \<open>Inline SVG with a style sheet: the tag names of SVG elements are in lower case.\<close>

definition svgPage :: node where
  "svgPage = Element (ascii ''MAIN'') []
     [Element (ascii ''svg'') [] [Element (ascii ''style'') [] [Text helloWorld]]]"

text \<open>A table whose entries chain: \<open>A\<close> to \<open>B\<close>, \<open>B\<close> to \<open>C\<close>.\<close>

definition chainEnv :: env where
  "chainEnv =
     \<lparr>translateText = (\<lambda>t. if t = ascii ''A'' then Inr (ascii ''B'')
                           else if t = ascii ''B'' then Inr (ascii ''C'') else Inr t),
      reverseTranslateText = (\<lambda>t. if t = ascii ''C'' then Inr (ascii ''B'')
                           else if t = ascii ''B'' then Inr (ascii ''A'') else Inr t),
      nodeIds = (\<lambda>k. ascii ''text-'' @ replicate (Suc k) 0x31)\<rparr>"

definition chainPage :: "jsstring \<Rightarrow> node" where
  "chainPage t = Element (ascii ''MAIN'') [] [Element (ascii ''P'') [] [Text t]]"

lemmas eval_defs = ascii_def helloWorld_def marhaban_def sampleEnv_def sampleWorld_def helloPage_def
  trim_def isSpace_def isWord_def isArabic_def symbolOnly_def leadingSpace_def trailingSpace_def
  excludedTag_def lookupText_def insideExcluded_def newPayload_def

section \<open>More on trimming\<close>

lemma trim_ends:
  assumes "trim t \<noteq> []"
  shows "\<not> isSpace (hd (trim t))" and "\<not> isSpace (last (trim t))"
proof -
  let ?d = "dropWhile isSpace t"
  let ?e = "dropWhile isSpace (rev ?d)"
  have e: "?e \<noteq> []"
    using assms by (simp only: trim_def rev_is_Nil_conv not_False_eq_True)
  have d: "?d \<noteq> []"
  proof
    assume n: "?d = []"
    have "?e = []" by (simp only: n rev.simps dropWhile.simps)
    with e show False by simp
  qed
  have "last (trim t) = hd ?e"
    using e by (simp only: trim_def last_rev)
  then show "\<not> isSpace (last (trim t))"
    using e hd_dropWhile [of isSpace "rev ?d"] by simp
  have "last ?e = last (rev ?d)"
    using e by (metis last_appendR takeWhile_dropWhile_id)
  then have "hd (trim t) = hd ?d"
    using e d by (simp only: trim_def hd_rev last_rev)
  then show "\<not> isSpace (hd (trim t))"
    using d hd_dropWhile [of isSpace t] by simp
qed

lemma trim_fixed:
  assumes "s \<noteq> []" and "\<not> isSpace (hd s)" and "\<not> isSpace (last s)"
  shows "trim s = s"
proof -
  have "dropWhile isSpace s = s"
    using assms(1,2) by (cases s) simp_all
  moreover have "dropWhile isSpace (rev s) = rev s"
    using assms(1,3) by (cases "rev s") (simp_all add: hd_rev)
  ultimately show ?thesis by (simp add: trim_def)
qed

lemma trim_trim: "trim (trim t) = trim t"
proof (cases "trim t = []")
  case True
  have "trim [] = []" by (simp add: trim_def)
  with True show ?thesis by simp
next
  case False
  then show ?thesis using trim_ends [OF False] by (intro trim_fixed)
qed

section \<open>One toggle\<close>

lemma translate_forward:
  assumes "\<not> isTranslating w" and "\<not> isTranslated w" and "mainContent w = Some root"
  shows "translate env w =
    (snd (translateElementsRecursively env False root (w\<lparr>isTranslating := True\<rparr>)))
      \<lparr>mainContent := Some (fst (translateElementsRecursively env False root (w\<lparr>isTranslating := True\<rparr>))),
       documentElement := AList.update (ascii ''lang'') (ascii ''ar'')
          (AList.update (ascii ''dir'') (ascii ''rtl'')
            (documentElement (snd (translateElementsRecursively env False root (w\<lparr>isTranslating := True\<rparr>))))),
       isTranslated := True, isTranslating := False\<rparr>"
  using assms by (simp add: translate_def translateTry_def Let_def case_prod_unfold)

lemma translate_reverse:
  assumes "\<not> isTranslating w" and "isTranslated w" and "mainContent w = Some root"
  shows "translate env w =
    (snd (translateElementsRecursively env True root (w\<lparr>isTranslating := True\<rparr>)))
      \<lparr>mainContent := Some (fst (translateElementsRecursively env True root (w\<lparr>isTranslating := True\<rparr>))),
       documentElement := AList.update (ascii ''lang'') (ascii ''en'')
          (AList.update (ascii ''dir'') (ascii ''ltr'')
            (documentElement (snd (translateElementsRecursively env True root (w\<lparr>isTranslating := True\<rparr>))))),
       isTranslated := False, originalTexts := [], isTranslating := False\<rparr>"
  using assms by (simp add: translate_def translateTry_def Let_def case_prod_unfold)

lemma ascii_dir_lang: "ascii ''dir'' \<noteq> ascii ''lang''"
  by (simp add: ascii_def)

section \<open>Properties of the walker and of the state holder\<close>

subsection \<open>C1: a forward walk followed by a reverse walk\<close>

lemma inverseEverywhere_fragments: "inverseEverywhere env \<Longrightarrow> inverseOnFragments env"
  unfolding inverseEverywhere_def inverseOnFragments_def
  by (metis sum.inject(2))

lemma swap_swap: "swap (swap t) = t"
  by (simp add: swap_def ascii_def)

lemma swapPage_forward:
  "walkTree swapEnv False swapPage = Element (ascii ''MAIN'') []
     [Element (ascii ''P'') [] [Text (ascii ''!!'')],
      Element (ascii ''P'') [] [Text []],
      Element (ascii ''P'') [] [Text (ascii '' X'')]]"
  by (simp add: swapPage_def swapEnv_def swap_def eval_defs)

lemma swapPage_reverse:
  "walkTree swapEnv True (Element (ascii ''MAIN'') []
     [Element (ascii ''P'') [] [Text (ascii ''!!'')],
      Element (ascii ''P'') [] [Text []],
      Element (ascii ''P'') [] [Text (ascii '' X'')]])
   = Element (ascii ''MAIN'') []
     [Element (ascii ''P'') [] [Text (ascii ''!!'')],
      Element (ascii ''P'') [] [Text []],
      Element (ascii ''P'') [] [Text (ascii '' X'')]]"
  by (simp add: swapEnv_def swap_def eval_defs)

text \<open>
  C1, as the claim states it, fails. The table \<open>swapEnv\<close> is its own inverse on every
  string, and the forward walk over \<open>swapPage\<close> changes the three payloads \<open>Hi\<close>, \<open>Yes\<close>
  and \<open>No\<close>; the reverse walk restores none of them: the first candidate is matched by
  the exclusion pattern, the second is empty, and the third is trimmed to another string
  before the reverse lookup.
\<close>

theorem forward_then_reverse_counterexample:
  "inverseEverywhere swapEnv
   \<and> nodeAt swapPage [0, 0] = Some (Text (ascii ''Hi''))
   \<and> nodeAt (fst (translateElementsRecursively swapEnv False swapPage (sampleWorld [] None))) [0, 0]
       = Some (Text (ascii ''!!''))
   \<and> nodeAt (fst (translateElementsRecursively swapEnv True
         (fst (translateElementsRecursively swapEnv False swapPage (sampleWorld [] None)))
         (sampleWorld [] None))) [0, 0] = Some (Text (ascii ''!!''))
   \<and> nodeAt swapPage [1, 0] = Some (Text (ascii ''Yes''))
   \<and> nodeAt (fst (translateElementsRecursively swapEnv True
         (fst (translateElementsRecursively swapEnv False swapPage (sampleWorld [] None)))
         (sampleWorld [] None))) [1, 0] = Some (Text [])
   \<and> nodeAt swapPage [2, 0] = Some (Text (ascii ''No''))
   \<and> nodeAt (fst (translateElementsRecursively swapEnv True
         (fst (translateElementsRecursively swapEnv False swapPage (sampleWorld [] None)))
         (sampleWorld [] None))) [2, 0] = Some (Text (ascii '' X''))"
proof -
  have "inverseEverywhere swapEnv"
    by (simp add: inverseEverywhere_def swapEnv_def swap_swap)
  moreover have "nodeAt swapPage [0, 0] = Some (Text (ascii ''Hi''))"
    "nodeAt swapPage [1, 0] = Some (Text (ascii ''Yes''))"
    "nodeAt swapPage [2, 0] = Some (Text (ascii ''No''))"
    by (simp_all add: swapPage_def)
  ultimately show ?thesis
    unfolding walk_fst swapPage_forward swapPage_reverse by simp
qed

text \<open>
  C1, amended: when the reverse lookup undoes the forward lookup on every looked-up
  fragment that has an entry, and the forward lookup returns for a looked-up fragment
  a string that is not empty, is trimmed and is not matched by the exclusion pattern,
  then every text payload that a forward walk changes is, after a reverse walk over
  the result, the original payload again, with its leading and trailing whitespace.
\<close>

theorem forward_then_reverse_restores:
  assumes inv: "inverseOnFragments env" and out: "candidatesTranslatable env"
    and at: "nodeAt root p = Some (Text t)"
    and mutated: "nodeAt (fst (translateElementsRecursively env False root w)) p \<noteq> Some (Text t)"
  shows "nodeAt (fst (translateElementsRecursively env True
                   (fst (translateElementsRecursively env False root w)) w')) p = Some (Text t)"
proof -
  let ?fwd = "walkTree env False root"
  have fwd: "nodeAt ?fwd p =
      Some (Text (if p \<noteq> [] \<and> \<not> insideExcluded root p then newPayload env False t else t))"
    using at by (rule nodeAt_walkTree_text)
  with mutated have reached: "p \<noteq> [] \<and> \<not> insideExcluded root p"
    and changed: "newPayload env False t \<noteq> t"
    by (auto simp: walk_fst split: if_splits)
  from changed have ne: "trim t \<noteq> []" and sym: "\<not> symbolOnly (trim t)"
    by (auto simp: newPayload_def)
  from changed ne sym obtain c where c: "translateText env (trim t) = Inr c" "c \<noteq> trim t"
    and new: "newPayload env False t = leadingSpace t @ c @ trailingSpace t"
    by (cases "translateText env (trim t)") (auto simp: newPayload_def lookupText_def split: if_splits)
  have tt: "translatable (trim t)"
    using ne sym by (simp add: translatable_def trim_trim)
  have tc: "translatable c"
    using out tt c(1) unfolding candidatesTranslatable_def by blast
  have inverted: "reverseTranslateText env c = Inr (trim t)"
    using inv tt c unfolding inverseOnFragments_def by blast
  let ?t' = "leadingSpace t @ c @ trailingSpace t"
  have pad: "trim ?t' = c" "leadingSpace ?t' = leadingSpace t" "trailingSpace ?t' = trailingSpace t"
    using tc padded_fragment [of c "leadingSpace t" "trailingSpace t"]
      leadingSpace_spaces [of t] trailingSpace_spaces [of t]
    by (simp_all add: translatable_def)
  have "newPayload env True ?t' = leadingSpace t @ trim t @ trailingSpace t"
    using tc inverted c(2) by (simp add: newPayload_def pad lookupText_def translatable_def)
  then have restored: "newPayload env True ?t' = t"
    using trim_parts [OF ne] by simp
  have "nodeAt ?fwd p = Some (Text ?t')"
    using fwd reached new by simp
  then have "nodeAt (walkTree env True ?fwd) p =
      Some (Text (if p \<noteq> [] \<and> \<not> insideExcluded ?fwd p then newPayload env True ?t' else ?t'))"
    by (rule nodeAt_walkTree_text)
  then show ?thesis
    using reached restored by (simp add: walk_fst insideExcluded_walkTree)
qed

lemma sampleEnv_inverse: "inverseOnFragments sampleEnv"
  unfolding inverseOnFragments_def sampleEnv_def
  by (auto simp: ascii_def helloWorld_def marhaban_def split: if_splits)

lemma sampleEnv_candidates: "candidatesTranslatable sampleEnv"
proof -
  have "translatable marhaban" and "translatable [0x664, 0x662]"
    by (simp_all add: translatable_def eval_defs)
  then show ?thesis
    unfolding candidatesTranslatable_def sampleEnv_def
    by (auto split: if_splits)
qed

lemma helloPage_forward:
  "walkTree sampleEnv False helloPage =
     Element (ascii ''MAIN'') [] [Element (ascii ''P'') [] [Text (ascii ''  '' @ marhaban @ ascii ''  '')]]"
  by (simp add: eval_defs)

theorem forward_then_reverse_restores_witness:
  "inverseOnFragments sampleEnv \<and> candidatesTranslatable sampleEnv
   \<and> nodeAt helloPage [0, 0] = Some (Text (ascii ''  '' @ helloWorld @ ascii ''  ''))
   \<and> nodeAt (fst (translateElementsRecursively sampleEnv False helloPage (sampleWorld [] None))) [0, 0]
       = Some (Text (ascii ''  '' @ marhaban @ ascii ''  ''))
   \<and> nodeAt (fst (translateElementsRecursively sampleEnv True
         (fst (translateElementsRecursively sampleEnv False helloPage (sampleWorld [] None)))
         (sampleWorld [] None))) [0, 0] = Some (Text (ascii ''  '' @ helloWorld @ ascii ''  ''))"
proof -
  let ?t = "ascii ''  '' @ helloWorld @ ascii ''  ''"
  have at: "nodeAt helloPage [0, 0] = Some (Text ?t)"
    by (simp add: helloPage_def)
  have fwd: "nodeAt (fst (translateElementsRecursively sampleEnv False helloPage (sampleWorld [] None))) [0, 0]
       = Some (Text (ascii ''  '' @ marhaban @ ascii ''  ''))"
    by (simp add: walk_fst helloPage_forward)
  have mutated: "nodeAt (fst (translateElementsRecursively sampleEnv False helloPage (sampleWorld [] None))) [0, 0]
       \<noteq> Some (Text ?t)"
    unfolding fwd by (simp add: eval_defs)
  from forward_then_reverse_restores [OF sampleEnv_inverse sampleEnv_candidates at mutated]
  show ?thesis
    using sampleEnv_inverse sampleEnv_candidates at fwd by simp
qed

subsection \<open>C2: fragments of digits\<close>

lemma digitsPage_forward:
  "walkTree sampleEnv False digitsPage = Element (ascii ''P'') [] [Text [0x664, 0x662]]"
  by (simp add: digitsPage_def eval_defs)

text \<open>
  C2 holds of the comment in the source (skip a text that contains only symbols or
  numbers) and not of the code: a digit is a word character, so the exclusion pattern
  does not match \<open>42\<close>, the fragment is looked up, and with a table that has an entry for
  it the forward walk replaces the payload.
\<close>

theorem digits_fragment_is_looked_up:
  "\<not> symbolOnly (trim (ascii ''42''))
   \<and> lookupText sampleEnv False (trim (ascii ''42'')) = Inr [0x664, 0x662]
   \<and> fst (translateElementsRecursively sampleEnv False digitsPage (sampleWorld [] (Some digitsPage)))
       = Element (ascii ''P'') [] [Text [0x664, 0x662]]"
  unfolding walk_fst digitsPage_forward by (simp add: eval_defs)

text \<open>What the exclusion pattern does keep: a fragment it matches is left as it is.\<close>

lemma symbolOnly_fragment_kept:
  "symbolOnly (trim t) \<Longrightarrow> translateTextNode env isReverse t w = (t, w)"
  by (simp add: translateTextNode_def)

subsection \<open>C3: the attributes of the root after a toggle\<close>

lemma toggle_twice:
  assumes "\<not> isTranslating w" and "\<not> isTranslated w" and "mainContent w = Some root"
  shows "isTranslated (translate env w)"
    and "map_of (documentElement (translate env w)) (ascii ''dir'') = Some (ascii ''rtl'')"
    and "map_of (documentElement (translate env w)) (ascii ''lang'') = Some (ascii ''ar'')"
    and "\<not> isTranslated (translate env (translate env w))"
    and "map_of (documentElement (translate env (translate env w))) (ascii ''dir'') = Some (ascii ''ltr'')"
    and "map_of (documentElement (translate env (translate env w))) (ascii ''lang'') = Some (ascii ''en'')"
proof -
  let ?w1 = "translate env w"
  have w1: "\<not> isTranslating ?w1" "isTranslated ?w1"
    "mainContent ?w1 = Some (fst (translateElementsRecursively env False root (w\<lparr>isTranslating := True\<rparr>)))"
    by (simp_all add: translate_forward [OF assms])
  show "isTranslated ?w1" by (rule w1(2))
  show "map_of (documentElement ?w1) (ascii ''dir'') = Some (ascii ''rtl'')"
    "map_of (documentElement ?w1) (ascii ''lang'') = Some (ascii ''ar'')"
    using ascii_dir_lang by (simp_all add: translate_forward [OF assms] update_conv')
  show "\<not> isTranslated (translate env ?w1)"
    "map_of (documentElement (translate env ?w1)) (ascii ''dir'') = Some (ascii ''ltr'')"
    "map_of (documentElement (translate env ?w1)) (ascii ''lang'') = Some (ascii ''en'')"
    using ascii_dir_lang by (simp_all add: translate_reverse [OF w1] update_conv')
qed

text \<open>
  C3, as the claim states it, fails for a document whose root starts with the locale
  \<open>fr\<close> and no direction: after the two toggles the locale is \<open>en\<close> and the direction is
  \<open>ltr\<close>, not what they were.
\<close>

theorem toggle_attributes_counterexample:
  "map_of (documentElement (sampleWorld [(ascii ''lang'', ascii ''fr'')] (Some helloPage))) (ascii ''lang'')
     = Some (ascii ''fr'')
   \<and> map_of (documentElement (sampleWorld [(ascii ''lang'', ascii ''fr'')] (Some helloPage))) (ascii ''dir'')
     = None
   \<and> isTranslated (translate sampleEnv (sampleWorld [(ascii ''lang'', ascii ''fr'')] (Some helloPage)))
   \<and> \<not> isTranslated (translate sampleEnv
         (translate sampleEnv (sampleWorld [(ascii ''lang'', ascii ''fr'')] (Some helloPage))))
   \<and> map_of (documentElement (translate sampleEnv
         (translate sampleEnv (sampleWorld [(ascii ''lang'', ascii ''fr'')] (Some helloPage))))) (ascii ''lang'')
     = Some (ascii ''en'')
   \<and> map_of (documentElement (translate sampleEnv
         (translate sampleEnv (sampleWorld [(ascii ''lang'', ascii ''fr'')] (Some helloPage))))) (ascii ''dir'')
     = Some (ascii ''ltr'')
   \<and> ascii ''en'' \<noteq> ascii ''fr''"
proof -
  let ?w = "sampleWorld [(ascii ''lang'', ascii ''fr'')] (Some helloPage)"
  have h: "\<not> isTranslating ?w" "\<not> isTranslated ?w" "mainContent ?w = Some helloPage"
    by (simp_all add: sampleWorld_def)
  have "map_of (documentElement ?w) (ascii ''lang'') = Some (ascii ''fr'')"
    "map_of (documentElement ?w) (ascii ''dir'') = None"
    "ascii ''en'' \<noteq> ascii ''fr''"
    by (simp_all add: sampleWorld_def ascii_def)
  with toggle_twice [OF h, of sampleEnv] show ?thesis by simp
qed

text \<open>
  C3, amended: after a toggle that is not refused, finds the content root and starts in
  mode ORIGINAL, the mode is TRANSLATED, the direction of the root is \<open>rtl\<close> and its
  locale is \<open>ar\<close>; after the next toggle the mode is ORIGINAL, the direction is \<open>ltr\<close> and
  the locale is \<open>en\<close>, whatever the two attributes were before the first toggle.
\<close>

theorem toggle_attributes:
  assumes "\<not> isTranslating w" and "\<not> isTranslated w" and "mainContent w = Some root"
  shows "isTranslated (translate env w)
       \<and> map_of (documentElement (translate env w)) (ascii ''dir'') = Some (ascii ''rtl'')
       \<and> map_of (documentElement (translate env w)) (ascii ''lang'') = Some (ascii ''ar'')
       \<and> \<not> isTranslated (translate env (translate env w))
       \<and> map_of (documentElement (translate env (translate env w))) (ascii ''dir'') = Some (ascii ''ltr'')
       \<and> map_of (documentElement (translate env (translate env w))) (ascii ''lang'') = Some (ascii ''en'')"
  using toggle_twice [OF assms, of env] by simp

theorem toggle_attributes_witness:
  "\<not> isTranslating (sampleWorld [(ascii ''dir'', ascii ''ltr'')] (Some helloPage))
   \<and> \<not> isTranslated (sampleWorld [(ascii ''dir'', ascii ''ltr'')] (Some helloPage))
   \<and> mainContent (sampleWorld [(ascii ''dir'', ascii ''ltr'')] (Some helloPage)) = Some helloPage
   \<and> isTranslated (translate sampleEnv (sampleWorld [(ascii ''dir'', ascii ''ltr'')] (Some helloPage)))
   \<and> map_of (documentElement (translate sampleEnv (sampleWorld [(ascii ''dir'', ascii ''ltr'')] (Some helloPage))))
        (ascii ''dir'') = Some (ascii ''rtl'')
   \<and> map_of (documentElement (translate sampleEnv
         (translate sampleEnv (sampleWorld [(ascii ''dir'', ascii ''ltr'')] (Some helloPage)))))
        (ascii ''dir'') = Some (ascii ''ltr'')"
proof -
  let ?w = "sampleWorld [(ascii ''dir'', ascii ''ltr'')] (Some helloPage)"
  have h: "\<not> isTranslating ?w" "\<not> isTranslated ?w" "mainContent ?w = Some helloPage"
    by (simp_all add: sampleWorld_def)
  from toggle_attributes [OF h, of sampleEnv] h show ?thesis by simp
qed

subsection \<open>C4: subtrees under an excluded tag\<close>

lemma svgPage_forward:
  "walkTree sampleEnv False svgPage = Element (ascii ''MAIN'') []
     [Element (ascii ''svg'') [] [Element (ascii ''style'') [] [Text marhaban]]]"
  by (simp add: svgPage_def eval_defs)

text \<open>
  C4 holds of the comment in the source (skip script, style and other non-text
  elements) and not of the code: the test compares the tag name with \<open>SCRIPT\<close>, \<open>STYLE\<close>
  and \<open>NOSCRIPT\<close> in upper case, and the tag name of a style element of inline SVG is
  \<open>style\<close> in lower case, so the walk enters it and rewrites the text below it.
\<close>

theorem svg_style_text_is_rewritten:
  "\<not> excludedTag (ascii ''style'')
   \<and> ancestorTags svgPage [0, 0, 0] = [ascii ''MAIN'', ascii ''svg'', ascii ''style'']
   \<and> nodeAt svgPage [0, 0, 0] = Some (Text helloWorld)
   \<and> nodeAt (fst (translateElementsRecursively sampleEnv False svgPage (sampleWorld [] (Some svgPage)))) [0, 0, 0]
       = Some (Text marhaban)
   \<and> marhaban \<noteq> helloWorld"
  unfolding walk_fst svgPage_forward by (simp add: svgPage_def eval_defs)

text \<open>
  What the test does keep: an element whose tag name is \<open>SCRIPT\<close>, \<open>STYLE\<close> or \<open>NOSCRIPT\<close>
  in upper case is returned by the walk as it is, with the world as it is, in both
  directions; and in any tree, a text node below such an element keeps its payload.
\<close>

lemma excluded_subtree_untouched:
  "(excludedTag tagName \<longrightarrow>
      translateElementsRecursively env isReverse (Element tagName attrs childNodes) w
        = (Element tagName attrs childNodes, w))
   \<and> (nodeAt root p = Some (Text t) \<and> insideExcluded root p \<longrightarrow>
        nodeAt (fst (translateElementsRecursively env isReverse root w)) p = Some (Text t))"
proof (intro conjI impI)
  assume "excludedTag tagName"
  then show "translateElementsRecursively env isReverse (Element tagName attrs childNodes) w
        = (Element tagName attrs childNodes, w)"
    by simp
next
  assume a: "nodeAt root p = Some (Text t) \<and> insideExcluded root p"
  then have "nodeAt (walkTree env isReverse root) p =
      Some (Text (if p \<noteq> [] \<and> \<not> insideExcluded root p then newPayload env isReverse t else t))"
    by (intro nodeAt_walkTree_text) simp
  with a show "nodeAt (fst (translateElementsRecursively env isReverse root w)) p = Some (Text t)"
    by (simp add: walk_fst)
qed

subsection \<open>C5: the payload that a substitution writes\<close>

text \<open>
  C5: for a text node that the walk reaches, whose trimmed payload is not empty and not
  matched by the exclusion pattern, and whose lookup returns a candidate, the payload
  after the walk is the leading whitespace of the old payload, the candidate and the
  trailing whitespace of the old payload when the candidate differs from the trimmed
  payload, and the old payload when it does not; the old payload is its leading
  whitespace, its trimmed text and its trailing whitespace.
\<close>

theorem text_payload_rewritten:
  assumes at: "nodeAt (Element tagName attrs childNodes) p = Some (Text t)"
    and reached: "\<not> insideExcluded (Element tagName attrs childNodes) p"
    and ne: "trim t \<noteq> []" and sym: "\<not> symbolOnly (trim t)"
    and cand: "lookupText env isReverse (trim t) = Inr candidate"
  shows "nodeAt (fst (translateElementsRecursively env isReverse (Element tagName attrs childNodes) w)) p =
           Some (Text (if candidate \<noteq> trim t
                       then leadingSpace t @ candidate @ trailingSpace t else t))
       \<and> leadingSpace t @ trim t @ trailingSpace t = t"
proof -
  define root where "root = Element tagName attrs childNodes"
  have p: "p \<noteq> []" using at by auto
  have "newPayload env isReverse t =
      (if candidate \<noteq> trim t then leadingSpace t @ candidate @ trailingSpace t else t)"
    using ne sym cand by (simp add: newPayload_def)
  moreover have "nodeAt (walkTree env isReverse root) p =
      Some (Text (if p \<noteq> [] \<and> \<not> insideExcluded root p then newPayload env isReverse t else t))"
    using at unfolding root_def by (rule nodeAt_walkTree_text)
  ultimately have "nodeAt (fst (translateElementsRecursively env isReverse root w)) p =
      Some (Text (if candidate \<noteq> trim t then leadingSpace t @ candidate @ trailingSpace t else t))"
    using p reached by (simp add: walk_fst root_def [symmetric])
  then show ?thesis
    using trim_parts [OF ne] by (simp add: root_def)
qed

theorem text_payload_rewritten_witness:
  "nodeAt helloPage [0, 0] = Some (Text (ascii ''  '' @ helloWorld @ ascii ''  ''))
   \<and> lookupText sampleEnv False (trim (ascii ''  '' @ helloWorld @ ascii ''  '')) = Inr marhaban
   \<and> nodeAt (fst (translateElementsRecursively sampleEnv False helloPage (sampleWorld [] (Some helloPage)))) [0, 0]
       = Some (Text (ascii ''  '' @ marhaban @ ascii ''  ''))"
proof -
  let ?t = "ascii ''  '' @ helloWorld @ ascii ''  ''"
  let ?kids = "[Element (ascii ''P'') [] [Text ?t]]"
  have at: "nodeAt (Element (ascii ''MAIN'') [] ?kids) [0, 0] = Some (Text ?t)"
    by simp
  have reached: "\<not> insideExcluded (Element (ascii ''MAIN'') [] ?kids) [0, 0]"
    by (simp add: insideExcluded_def excludedTag_def ascii_def)
  have tr: "trim ?t = helloWorld"
    by (simp add: eval_defs)
  have ne: "trim ?t \<noteq> []" and sym: "\<not> symbolOnly (trim ?t)"
    unfolding tr by (simp_all add: eval_defs)
  have cand: "lookupText sampleEnv False (trim ?t) = Inr marhaban"
    unfolding tr by (simp add: lookupText_def sampleEnv_def)
  have lead: "leadingSpace ?t = ascii ''  ''" and trail: "trailingSpace ?t = ascii ''  ''"
    by (simp_all add: eval_defs)
  have d: "marhaban \<noteq> helloWorld"
    by (simp add: eval_defs)
  from text_payload_rewritten [OF at reached ne sym cand, of "sampleWorld [] (Some helloPage)"]
  show ?thesis
    unfolding tr lead trail using d cand tr by (simp add: helloPage_def ascii_def)
qed

subsection \<open>C6: a toggle while another is in flight\<close>

lemma chainPage_prefix:
  "translatePrefix chainEnv \<lparr>seen_isTranslated = False, seen_isTranslating = False\<rparr>
     (sampleWorld [] (Some (chainPage (ascii ''A''))))
   = \<lparr>isTranslated = False, isTranslating = True,
      originalTexts = [(ascii ''text-1'', ascii ''A'')],
      documentElement = [], mainContent = Some (chainPage (ascii ''B'')),
      console = [], drawn = 1\<rparr>"
  by (simp add: translatePrefix_def translateTextNode_def chainPage_def chainEnv_def eval_defs)

lemma chainPage_prefix_again:
  "translatePrefix chainEnv \<lparr>seen_isTranslated = False, seen_isTranslating = False\<rparr>
     \<lparr>isTranslated = False, isTranslating = True,
      originalTexts = [(ascii ''text-1'', ascii ''A'')],
      documentElement = [], mainContent = Some (chainPage (ascii ''B'')),
      console = [], drawn = 1\<rparr>
   = \<lparr>isTranslated = False, isTranslating = True,
      originalTexts = [(ascii ''text-1'', ascii ''A''), (ascii ''text-11'', ascii ''B'')],
      documentElement = [], mainContent = Some (chainPage (ascii ''C'')),
      console = [], drawn = 2\<rparr>"
  by (simp add: translatePrefix_def translateTextNode_def chainPage_def chainEnv_def eval_defs)

text \<open>
  C6 holds of a call through the closure of a render that saw the in-flight flag set,
  and not of the code: the guard reads the constant of the render that made the
  closure. Two calls through one closure, the second before the first has come back
  from the \<open>await\<close> of its walk, both pass the guard: the first sets the flag and
  rewrites \<open>A\<close> to \<open>B\<close>, the second, with the flag set and the first call not finished,
  walks again, rewrites \<open>B\<close> to \<open>C\<close> and adds to the restoration record. A call through
  the closure of a render after the first call began is refused.
\<close>

theorem stale_closure_walks_again:
  "renderOf (sampleWorld [] (Some (chainPage (ascii ''A''))))
     = \<lparr>seen_isTranslated = False, seen_isTranslating = False\<rparr>
   \<and> isTranslating (translatePrefix chainEnv (renderOf (sampleWorld [] (Some (chainPage (ascii ''A'')))))
         (sampleWorld [] (Some (chainPage (ascii ''A'')))))
   \<and> mainContent (translatePrefix chainEnv (renderOf (sampleWorld [] (Some (chainPage (ascii ''A'')))))
         (sampleWorld [] (Some (chainPage (ascii ''A'')))))
       = Some (chainPage (ascii ''B''))
   \<and> mainContent (translatePrefix chainEnv (renderOf (sampleWorld [] (Some (chainPage (ascii ''A'')))))
         (translatePrefix chainEnv (renderOf (sampleWorld [] (Some (chainPage (ascii ''A'')))))
           (sampleWorld [] (Some (chainPage (ascii ''A''))))))
       = Some (chainPage (ascii ''C''))
   \<and> originalTexts (translatePrefix chainEnv (renderOf (sampleWorld [] (Some (chainPage (ascii ''A'')))))
         (translatePrefix chainEnv (renderOf (sampleWorld [] (Some (chainPage (ascii ''A'')))))
           (sampleWorld [] (Some (chainPage (ascii ''A''))))))
       = [(ascii ''text-1'', ascii ''A''), (ascii ''text-11'', ascii ''B'')]
   \<and> chainPage (ascii ''C'') \<noteq> chainPage (ascii ''B'')"
proof -
  have r: "renderOf (sampleWorld [] (Some (chainPage (ascii ''A''))))
     = \<lparr>seen_isTranslated = False, seen_isTranslating = False\<rparr>"
    by (simp add: renderOf_def sampleWorld_def)
  have d: "chainPage (ascii ''C'') \<noteq> chainPage (ascii ''B'')"
    by (simp add: chainPage_def ascii_def)
  show ?thesis
    unfolding r chainPage_prefix chainPage_prefix_again using d by simp
qed

text \<open>
  What the guard does keep: through the closure of a render that saw the flag set, the
  call returns at once and the world is as it was; so does \<open>translate\<close>, the call run to
  its end through the closure of the latest render.
\<close>

lemma translatePrefix_refused:
  "seen_isTranslating seen \<Longrightarrow> translatePrefix env seen w = w"
  by (simp add: translatePrefix_def)

lemma reentrant_translate_is_noop:
  assumes "isTranslating w"
  shows "translate env w = w"
  using assms by (simp add: translate_def)

subsection \<open>C7: a lookup that throws\<close>

text \<open>
  C7: when the lookup of a reached, looked-up text node throws, that node keeps its
  payload, and every reached text node of the tree, before or after it, among its
  siblings or in a child element, has after the walk the payload that the loop body
  gives it; the loop body, for the node whose lookup throws, returns the payload as it
  was and adds the entry of its \<open>catch\<close> to the console.
\<close>

theorem fragment_error_contained:
  assumes at: "nodeAt (Element tagName attrs childNodes) p = Some (Text t)"
    and reached: "\<not> insideExcluded (Element tagName attrs childNodes) p"
    and ne: "trim t \<noteq> []" and sym: "\<not> symbolOnly (trim t)"
    and thrown: "lookupText env isReverse (trim t) = Inl error"
  shows "nodeAt (fst (translateElementsRecursively env isReverse (Element tagName attrs childNodes) w)) p
           = Some (Text t)
       \<and> (\<forall>q s. nodeAt (Element tagName attrs childNodes) q = Some (Text s)
              \<and> \<not> insideExcluded (Element tagName attrs childNodes) q \<longrightarrow>
            nodeAt (fst (translateElementsRecursively env isReverse (Element tagName attrs childNodes) w)) q
              = Some (Text (fst (translateTextNode env isReverse s w))))
       \<and> translateTextNode env isReverse t w
           = (t, w\<lparr>console := console w @ [FailedToTranslateText (trim t) error]\<rparr>)"
proof (intro conjI allI impI)
  show "translateTextNode env isReverse t w
           = (t, w\<lparr>console := console w @ [FailedToTranslateText (trim t) error]\<rparr>)"
    using ne sym thrown by (simp add: translateTextNode_def)
next
  have "newPayload env isReverse t = t"
    using ne sym thrown by (simp add: newPayload_def)
  then have "nodeAt (walkTree env isReverse (Element tagName attrs childNodes)) p = Some (Text t)"
    using nodeAt_walkTree_text [OF at, of env isReverse] by (simp only: if_cancel)
  then show "nodeAt (fst (translateElementsRecursively env isReverse (Element tagName attrs childNodes) w)) p
           = Some (Text t)"
    by (simp only: walk_fst)
next
  fix q s
  assume a: "nodeAt (Element tagName attrs childNodes) q = Some (Text s)
              \<and> \<not> insideExcluded (Element tagName attrs childNodes) q"
  then have q: "q \<noteq> []" by auto
  from a have "nodeAt (Element tagName attrs childNodes) q = Some (Text s)" by simp
  from nodeAt_walkTree_text [OF this, of env isReverse] a q
  have "nodeAt (walkTree env isReverse (Element tagName attrs childNodes)) q
          = Some (Text (newPayload env isReverse s))"
    by (simp only: simp_thms if_True)
  then show "nodeAt (fst (translateElementsRecursively env isReverse (Element tagName attrs childNodes) w)) q
              = Some (Text (fst (translateTextNode env isReverse s w)))"
    by (simp only: walk_fst translateTextNode_fst)
qed

lemma boomPage_forward:
  "walkTree sampleEnv False boomPage = Element (ascii ''MAIN'') []
     [Text (ascii ''Boom''), Element (ascii ''P'') [] [Text marhaban], Text marhaban]"
  by (simp add: boomPage_def eval_defs)

theorem fragment_error_contained_witness:
  "lookupText sampleEnv False (trim (ascii ''Boom'')) = Inl (Error (ascii ''no entry''))
   \<and> nodeAt (fst (translateElementsRecursively sampleEnv False boomPage (sampleWorld [] None))) [0]
       = Some (Text (ascii ''Boom''))
   \<and> nodeAt (fst (translateElementsRecursively sampleEnv False boomPage (sampleWorld [] None))) [1, 0]
       = Some (Text marhaban)
   \<and> nodeAt (fst (translateElementsRecursively sampleEnv False boomPage (sampleWorld [] None))) [2]
       = Some (Text marhaban)"
proof -
  let ?kids = "[Text (ascii ''Boom''), Element (ascii ''P'') [] [Text helloWorld], Text helloWorld]"
  let ?root = "Element (ascii ''MAIN'') [] ?kids"
  have at: "nodeAt ?root [0] = Some (Text (ascii ''Boom''))"
    by simp
  have main: "\<not> excludedTag (ascii ''MAIN'')" and par: "\<not> excludedTag (ascii ''P'')"
    by (simp_all add: excludedTag_def ascii_def)
  have reached: "\<not> insideExcluded ?root [0]"
    using main by (simp add: insideExcluded_def)
  have tr: "trim (ascii ''Boom'') = ascii ''Boom''"
    by (simp add: eval_defs)
  have ne: "trim (ascii ''Boom'') \<noteq> []" and sym: "\<not> symbolOnly (trim (ascii ''Boom''))"
    unfolding tr by (simp_all add: eval_defs)
  have thrown: "lookupText sampleEnv False (trim (ascii ''Boom'')) = Inl (Error (ascii ''no entry''))"
    unfolding tr by (simp add: eval_defs)
  have new: "fst (translateTextNode sampleEnv False helloWorld (sampleWorld [] None)) = marhaban"
    unfolding translateTextNode_fst by (simp add: eval_defs)
  have q1: "nodeAt ?root [1, 0] = Some (Text helloWorld) \<and> \<not> insideExcluded ?root [1, 0]"
    using main par by (simp add: insideExcluded_def)
  have q2: "nodeAt ?root [2] = Some (Text helloWorld) \<and> \<not> insideExcluded ?root [2]"
    using main by (simp add: insideExcluded_def)
  from fragment_error_contained [OF at reached ne sym thrown, of "sampleWorld [] None"]
  show ?thesis
    unfolding boomPage_def using thrown new q1 q2 by metis
qed

subsection \<open>C8: an error that leaves the walk\<close>

text \<open>
  C8: a toggle that is not refused ends with the in-flight flag cleared, whether its
  \<open>try\<close> block throws or not; and when the block throws, the world after the toggle is
  the world before it with one more console entry: the mode, the attributes of the
  root and the content are what they were.
\<close>

theorem toggle_error_clears_flag:
  assumes "\<not> isTranslating w"
  shows "\<not> isTranslating (translate env w)
       \<and> (fst (translateTry env (w\<lparr>isTranslating := True\<rparr>)) = Some error \<longrightarrow>
            translate env w = w\<lparr>console := console w @ [TranslationFailed error]\<rparr>
            \<and> isTranslated (translate env w) = isTranslated w
            \<and> documentElement (translate env w) = documentElement w)"
proof (intro conjI impI)
  show "\<not> isTranslating (translate env w)"
    using assms by (simp add: translate_def Let_def)
next
  assume thrown: "fst (translateTry env (w\<lparr>isTranslating := True\<rparr>)) = Some error"
  then have "translateTry env (w\<lparr>isTranslating := True\<rparr>) = (Some error, w\<lparr>isTranslating := True\<rparr>)"
    by (auto simp: translateTry_def Let_def case_prod_unfold split: if_splits option.splits)
  then show eq: "translate env w = w\<lparr>console := console w @ [TranslationFailed error]\<rparr>"
    using assms by (simp add: translate_def)
  show "isTranslated (translate env w) = isTranslated w"
    "documentElement (translate env w) = documentElement w"
    unfolding eq by simp_all
qed

theorem toggle_error_clears_flag_witness:
  "\<not> isTranslating (sampleWorld [] None)
   \<and> fst (translateTry sampleEnv (sampleWorld [] None\<lparr>isTranslating := True\<rparr>)) = Some TypeError
   \<and> \<not> isTranslating (translate sampleEnv (sampleWorld [] None))
   \<and> translate sampleEnv (sampleWorld [] None)
       = sampleWorld [] None\<lparr>console := [TranslationFailed TypeError]\<rparr>
   \<and> isTranslated (translate sampleEnv (sampleWorld [] None)) = isTranslated (sampleWorld [] None)"
proof -
  have h: "\<not> isTranslating (sampleWorld [] None)"
    by (simp add: sampleWorld_def)
  have thrown: "fst (translateTry sampleEnv (sampleWorld [] None\<lparr>isTranslating := True\<rparr>)) = Some TypeError"
    by (simp add: translateTry_def sampleWorld_def)
  have c: "console (sampleWorld [] None) = []"
    by (simp add: sampleWorld_def)
  from toggle_error_clears_flag [OF h, of sampleEnv TypeError] thrown h c
  show ?thesis by simp
qed

subsection \<open>C9: reset\<close>

text \<open>
  C9: in mode ORIGINAL \<open>resetTranslation\<close> returns the world as it is; in mode TRANSLATED
  it returns the world that \<open>translate\<close> returns, which, when no toggle is in flight and
  the content root is there, holds the reverse walk of the content and the mode
  ORIGINAL.
\<close>

theorem resetTranslation_cases:
  "(\<not> isTranslated w \<longrightarrow> resetTranslation env w = w)
   \<and> (isTranslated w \<longrightarrow> resetTranslation env w = translate env w)
   \<and> (isTranslated w \<and> \<not> isTranslating w \<and> mainContent w = Some root \<longrightarrow>
        mainContent (resetTranslation env w)
          = Some (fst (translateElementsRecursively env True root (w\<lparr>isTranslating := True\<rparr>)))
        \<and> \<not> isTranslated (resetTranslation env w))"
proof (intro conjI impI)
  assume a: "isTranslated w \<and> \<not> isTranslating w \<and> mainContent w = Some root"
  then have r: "resetTranslation env w = translate env w"
    by (simp add: resetTranslation_def)
  from a have t: "\<not> isTranslating w" "isTranslated w" "mainContent w = Some root"
    by simp_all
  show "mainContent (resetTranslation env w)
          = Some (fst (translateElementsRecursively env True root (w\<lparr>isTranslating := True\<rparr>)))"
    unfolding r translate_reverse [OF t] by simp
  show "\<not> isTranslated (resetTranslation env w)"
    unfolding r translate_reverse [OF t] by simp
qed (simp_all add: resetTranslation_def)

lemma helloPage_translated:
  "translate sampleEnv (sampleWorld [] (Some helloPage)) =
     \<lparr>isTranslated = True, isTranslating = False,
      originalTexts = [(ascii ''text-1'', helloWorld)],
      documentElement = [(ascii ''dir'', ascii ''rtl''), (ascii ''lang'', ascii ''ar'')],
      mainContent = Some (Element (ascii ''MAIN'') []
        [Element (ascii ''P'') [] [Text (ascii ''  '' @ marhaban @ ascii ''  '')]]),
      console = [], drawn = 1\<rparr>"
  by (simp add: translate_def translateTry_def translateTextNode_def eval_defs)

theorem resetTranslation_cases_witness:
  "\<not> isTranslated (sampleWorld [] (Some helloPage))
   \<and> resetTranslation sampleEnv (sampleWorld [] (Some helloPage)) = sampleWorld [] (Some helloPage)
   \<and> isTranslated (translate sampleEnv (sampleWorld [] (Some helloPage)))
   \<and> \<not> isTranslating (translate sampleEnv (sampleWorld [] (Some helloPage)))
   \<and> resetTranslation sampleEnv (translate sampleEnv (sampleWorld [] (Some helloPage)))
       = translate sampleEnv (translate sampleEnv (sampleWorld [] (Some helloPage)))
   \<and> mainContent (resetTranslation sampleEnv (translate sampleEnv (sampleWorld [] (Some helloPage))))
       = Some helloPage
   \<and> \<not> isTranslated (resetTranslation sampleEnv (translate sampleEnv (sampleWorld [] (Some helloPage))))"
proof -
  let ?w0 = "sampleWorld [] (Some helloPage)"
  let ?page = "Element (ascii ''MAIN'') []
        [Element (ascii ''P'') [] [Text (ascii ''  '' @ marhaban @ ascii ''  '')]]"
  have o: "\<not> isTranslated ?w0"
    by (simp add: sampleWorld_def)
  have t: "isTranslated (translate sampleEnv ?w0)" "\<not> isTranslating (translate sampleEnv ?w0)"
    "mainContent (translate sampleEnv ?w0) = Some ?page"
    unfolding helloPage_translated by simp_all
  have b: "walkTree sampleEnv True ?page = helloPage"
    by (simp add: eval_defs)
  note r = resetTranslation_cases [of "translate sampleEnv ?w0" sampleEnv ?page, unfolded walk_fst b]
  from resetTranslation_cases [of ?w0 sampleEnv helloPage] r
  show ?thesis
    using o t by metis
qed

subsection \<open>C10: the accessor outside of a provider\<close>

text \<open>
  C10: where no provider is above, \<open>useTranslation\<close> throws; a call returns a value only
  when the context holds one, and then returns that value; under a provider it is the
  provider's value, whose four members are the mode flag, the in-flight flag,
  \<open>translate\<close> and \<open>resetTranslation\<close>.
\<close>

theorem useTranslation_outside_provider:
  "useTranslation None = Inl (Error (ascii ''useTranslation must be used within a TranslationProvider''))
   \<and> (useTranslation ctx = Inr c) = (ctx = Some c)
   \<and> useTranslation (Some (providerValue env w)) = Inr (providerValue env w)
   \<and> ctx_isTranslated (providerValue env w) = isTranslated w
   \<and> ctx_isTranslating (providerValue env w) = isTranslating w
   \<and> ctx_translate (providerValue env w) = translate env
   \<and> ctx_resetTranslation (providerValue env w) = resetTranslation env"
proof (cases ctx)
  case None
  then show ?thesis by (simp add: useTranslation_def providerValue_def)
next
  case (Some v)
  then show ?thesis by (simp add: useTranslation_def providerValue_def)
qed

end
